theory Spec2Isabelle
  imports Main "HOL-Library.Word" "HOL-Library.Sublist"
begin

section \<open>The save-file handlers of \<^verbatim>\<open>palworld_save_pal/ws/handlers/save_file_handler.py\<close>\<close>

text \<open>
  The module holds four coroutines, one per inbound message type. Each runs a
  \<^verbatim>\<open>try\<close> block against the application state returned by \<^verbatim>\<open>get_app_state()\<close>,
  writes envelopes to the websocket with \<^verbatim>\<open>ws.send_json\<close>, and turns every exception
  of the block into one \<^verbatim>\<open>ERROR\<close> envelope in its \<^verbatim>\<open>except Exception\<close> clause.

  The embedding passes the state explicitly. Python exceptions are values of type
  \<open>exn\<close>; a call that may raise returns \<open>exn + 'a\<close> with \<open>Inl\<close> for the exception.
  The websocket is the list of envelopes written to it, oldest first. The handlers are
  given twice. First over a connection that takes every write, where \<^verbatim>\<open>ws.send_json\<close>
  appends to that list: the statements on what a handler writes and does to the state are
  about this embedding. Then over a connection that may refuse a write, where
  \<^verbatim>\<open>ws.send_json\<close> may raise: the statement on terminal envelopes and escaping exceptions
  is about that one. The two agree while every write is taken.
  Logging and \<^verbatim>\<open>traceback.print_exc()\<close> have no effect on state or envelopes and are left out.
\<close>

subsection \<open>Bytes, exceptions, base64\<close>

type_synonym bytes = "8 word list"

datatype exn =
    ValueError string
  | IndexError string
  | AttributeError string
  | Exception string

text \<open>\<^verbatim>\<open>str(e)\<close>: the message the exception was raised with.\<close>

fun str_exn :: "exn \<Rightarrow> string" where
  "str_exn (ValueError m) = m"
| "str_exn (IndexError m) = m"
| "str_exn (AttributeError m) = m"
| "str_exn (Exception m) = m"

text \<open>
  \<^verbatim>\<open>base64.b64encode(sav_file).decode("utf-8")\<close>: the standard alphabet of RFC 4648 with
  \<^verbatim>\<open>=\<close> padding, three bytes to four characters. The output is ASCII, so decoding it as
  UTF-8 gives the same characters.
\<close>

definition b64_alphabet :: string where
  "b64_alphabet = ''ABCDEFGHIJKLMNOPQRSTUVWXYZabcdefghijklmnopqrstuvwxyz0123456789+/''"

definition b64_char :: "nat \<Rightarrow> char" where
  "b64_char i = b64_alphabet ! (i mod 64)"

fun b64encode :: "bytes \<Rightarrow> string" where
  "b64encode [] = []"
| "b64encode [a] =
     (let n = unat a * 16
      in [b64_char (n div 64), b64_char n, CHR ''='', CHR ''=''])"
| "b64encode [a, b] =
     (let n = unat a * 1024 + unat b * 4
      in [b64_char (n div 4096), b64_char (n div 64), b64_char n, CHR ''=''])"
| "b64encode (a # b # c # rest) =
     (let n = unat a * 65536 + unat b * 256 + unat c
      in [b64_char (n div 262144), b64_char (n div 4096), b64_char (n div 64), b64_char n])
     @ b64encode rest"

text \<open>
  The decoder the receiving side applies to the \<^verbatim>\<open>content\<close> field: the strict inverse
  (four characters to three bytes, padding only in the last group, \<open>None\<close> on anything else).
\<close>

fun index_of :: "'a \<Rightarrow> 'a list \<Rightarrow> nat option" where
  "index_of x [] = None"
| "index_of x (y # ys) = (if x = y then Some 0 else map_option Suc (index_of x ys))"

definition b64_index :: "char \<Rightarrow> nat option" where
  "b64_index c = index_of c b64_alphabet"

definition b64_group :: "char \<Rightarrow> char \<Rightarrow> char \<Rightarrow> char \<Rightarrow> nat option" where
  "b64_group c1 c2 c3 c4 =
     (case (b64_index c1, b64_index c2, b64_index c3, b64_index c4) of
        (Some i1, Some i2, Some i3, Some i4) \<Rightarrow> Some (((i1 * 64 + i2) * 64 + i3) * 64 + i4)
      | _ \<Rightarrow> None)"

fun b64decode :: "string \<Rightarrow> bytes option" where
  "b64decode [] = Some []"
| "b64decode (c1 # c2 # c3 # c4 # rest) =
     (if rest = [] \<and> c4 = CHR ''='' then
        (if c3 = CHR ''='' then
           map_option (\<lambda>n. [of_nat (n div 65536)]) (b64_group c1 c2 CHR ''A'' CHR ''A'')
         else
           map_option (\<lambda>n. [of_nat (n div 65536), of_nat (n div 256)])
             (b64_group c1 c2 c3 CHR ''A''))
      else
        (case (b64_group c1 c2 c3 c4, b64decode rest) of
           (Some n, Some bs) \<Rightarrow>
             Some (of_nat (n div 65536) # of_nat (n div 256) # of_nat n # bs)
         | _ \<Rightarrow> None))"
| "b64decode _ = None"

subsection \<open>Envelopes\<close>

datatype MessageType =
    PROGRESS_MESSAGE
  | LOAD_SAVE_FILE
  | LOAD_ZIP_FILE
  | UPDATE_SAVE_FILE
  | DOWNLOAD_SAVE_FILE
  | GET_PLAYERS
  | ERROR

text \<open>
  The payloads the handlers build: a string, the dictionary \<^verbatim>\<open>{"name", "size"}\<close>, the
  dictionary \<^verbatim>\<open>{"name", "content"}\<close>, and the output of \<^verbatim>\<open>jsonable_encoder\<close>.
\<close>

datatype 'j payload =
    Text string
  | NameSize string int
  | NameContent string string
  | Encoded 'j

record 'j response =
  msg_type :: MessageType
  data :: "'j payload"

text \<open>
  Modelled from the spec: \<^verbatim>\<open>build_response\<close> of \<^verbatim>\<open>palworld_save_pal.ws.utils\<close> is not among the
  sources. The spec gives the envelope as \<^verbatim>\<open>{ type: enum, data: payload }\<close>, pure data that
  wraps the payload with its message-type tag.
\<close>

definition build_response :: "MessageType \<Rightarrow> 'j payload \<Rightarrow> 'j response" where
  "build_response t d = \<lparr>msg_type = t, data = d\<rparr>"

subsection \<open>Application state and collaborators\<close>

text \<open>
  \<^verbatim>\<open>get_app_state()\<close> returns the process-wide state object. The handlers use two of its
  attributes: \<^verbatim>\<open>save_file\<close> (\<^verbatim>\<open>None\<close> until a save is loaded) and \<^verbatim>\<open>players\<close>. Of a save
  file they read \<^verbatim>\<open>name\<close> and \<^verbatim>\<open>size\<close>; the rest of the object is the opaque \<open>handle\<close>.
\<close>

record 'h SaveFile =
  name :: string
  size_sf :: int
  handle :: 'h

record ('h, 'pl) AppState =
  save_file :: "'h SaveFile option"
  players :: 'pl

text \<open>The archive object \<^verbatim>\<open>zip_ref\<close>: its \<^verbatim>\<open>namelist()\<close> and its \<^verbatim>\<open>read(name)\<close>.\<close>

record zip_ref =
  namelist :: "string list"
  read :: "string \<Rightarrow> exn + bytes"

text \<open>
  The calls made on the collaborators, in order, with their arguments: kept beside the
  state so that a statement can say which calls a handler made.
\<close>

datatype ('u, 'pa, 'pp) engine_call =
    ProcessSaveFile bytes
  | ProcessSaveFiles string bytes "('u \<times> bytes) list"
  | UpdatePals "'pa list"
  | UpdatePlayers "'pp list"
  | GetPlayers
  | Sav

text \<open>
  What the module calls and does not define. A coroutine that receives \<^verbatim>\<open>ws_callback\<close>
  returns the progress texts it reported, whether it raised, and the object it mutated:
  \<^verbatim>\<open>process_save_file\<close> and \<^verbatim>\<open>process_save_files\<close> are methods of the application state,
  \<^verbatim>\<open>update_pals\<close>, \<^verbatim>\<open>update_players\<close>, \<^verbatim>\<open>get_players\<close> and \<^verbatim>\<open>sav\<close> methods of the save file.
  \<^verbatim>\<open>ZipFile\<close> is \<^verbatim>\<open>zipfile.ZipFile(io.BytesIO(zip_data), "r")\<close>, \<^verbatim>\<open>UUID\<close> is \<^verbatim>\<open>uuid.UUID\<close>,
  \<^verbatim>\<open>repr\<close> is Python's \<^verbatim>\<open>repr\<close> of a string (used when a list is formatted).
\<close>

record ('h, 'pl, 'u, 'pa, 'pp, 'j) env =
  process_save_file ::
    "bytes \<Rightarrow> ('h, 'pl) AppState \<Rightarrow> string list \<times> (exn + unit) \<times> ('h, 'pl) AppState"
  process_save_files ::
    "string \<Rightarrow> bytes \<Rightarrow> ('u \<times> bytes) list \<Rightarrow> ('h, 'pl) AppState
       \<Rightarrow> string list \<times> (exn + unit) \<times> ('h, 'pl) AppState"
  update_pals :: "'pa list \<Rightarrow> 'h SaveFile \<Rightarrow> string list \<times> (exn + unit) \<times> 'h SaveFile"
  update_players :: "'pp list \<Rightarrow> 'h SaveFile \<Rightarrow> string list \<times> (exn + unit) \<times> 'h SaveFile"
  get_players :: "'h SaveFile \<Rightarrow> exn + 'pl"
  sav :: "'h SaveFile \<Rightarrow> exn + bytes"
  jsonable_encoder :: "'pl \<Rightarrow> exn + 'j"
  ZipFile :: "bytes \<Rightarrow> exn + zip_ref"
  UUID :: "string \<Rightarrow> exn + 'u"
  repr :: "string \<Rightarrow> string"

record ('h, 'pl, 'u, 'pa, 'pp, 'j) world =
  app_state :: "('h, 'pl) AppState"
  ws :: "'j response list"
  calls :: "('u, 'pa, 'pp) engine_call list"

definition send_json ::
  "'j response \<Rightarrow> ('h, 'pl, 'u, 'pa, 'pp, 'j) world \<Rightarrow> ('h, 'pl, 'u, 'pa, 'pp, 'j) world" where
  "send_json response w = w\<lparr>ws := ws w @ [response]\<rparr>"

text \<open>The closure \<^verbatim>\<open>ws_callback\<close> each handler defines (lines 26-28, 58-60, 98-100, 132-134).\<close>

definition ws_callback ::
  "string \<Rightarrow> ('h, 'pl, 'u, 'pa, 'pp, 'j) world \<Rightarrow> ('h, 'pl, 'u, 'pa, 'pp, 'j) world" where
  "ws_callback message w = send_json (build_response PROGRESS_MESSAGE (Text message)) w"

text \<open>The progress texts a collaborator reported through \<^verbatim>\<open>ws_callback\<close>, in call order.\<close>

definition report ::
  "string list \<Rightarrow> ('h, 'pl, 'u, 'pa, 'pp, 'j) world \<Rightarrow> ('h, 'pl, 'u, 'pa, 'pp, 'j) world" where
  "report msgs w = fold ws_callback msgs w"

subsection \<open>Strings, paths and dictionaries\<close>

definition startswith :: "string \<Rightarrow> string \<Rightarrow> bool" where
  "startswith s p = (take (length p) s = p)"

definition endswith :: "string \<Rightarrow> string \<Rightarrow> bool" where
  "endswith s p = (length p \<le> length s \<and> drop (length s - length p) s = p)"

text \<open>\<^verbatim>\<open>s.split("/")[0]\<close>: the characters before the first slash (all of \<open>s\<close> when it has none).\<close>

definition first_segment :: "string \<Rightarrow> string" where
  "first_segment s = takeWhile (\<lambda>c. c \<noteq> CHR ''/'') s"

text \<open>\<^verbatim>\<open>p.rfind(c)\<close>: the index of the last occurrence, \<open>-1\<close> when there is none.\<close>

definition rfind :: "string \<Rightarrow> char \<Rightarrow> int" where
  "rfind p c =
     (case index_of c (rev p) of
        None \<Rightarrow> - 1
      | Some k \<Rightarrow> int (length p) - 1 - int k)"

text \<open>\<^verbatim>\<open>os.path.basename\<close> (posixpath): \<^verbatim>\<open>p[p.rfind("/") + 1:]\<close>.\<close>

definition basename :: "string \<Rightarrow> string" where
  "basename p = drop (nat (rfind p CHR ''/'' + 1)) p"

text \<open>
  \<^verbatim>\<open>os.path.splitext\<close> (posixpath, \<^verbatim>\<open>genericpath._splitext\<close>): split at the last dot when it
  lies after the last slash and some character between that slash and the dot is not a
  dot; otherwise the extension is empty.
\<close>

definition splitext :: "string \<Rightarrow> string \<times> string" where
  "splitext p =
     (let sepIndex = rfind p CHR ''/'';
          dotIndex = rfind p CHR ''.''
      in if dotIndex > sepIndex \<and>
            list_ex (\<lambda>c. c \<noteq> CHR ''.'') (drop (nat (sepIndex + 1)) (take (nat dotIndex) p))
         then (take (nat dotIndex) p, drop (nat dotIndex) p)
         else (p, []))"

text \<open>\<^verbatim>\<open>", ".join(...)\<close> and the formatting of a list of strings in an f-string.\<close>

fun join :: "string \<Rightarrow> string list \<Rightarrow> string" where
  "join sep [] = []"
| "join sep [x] = x"
| "join sep (x # y # ys) = x @ sep @ join sep (y # ys)"

definition repr_list :: "(string \<Rightarrow> string) \<Rightarrow> string list \<Rightarrow> string" where
  "repr_list r xs = ''['' @ join '', '' (map r xs) @ '']''"

text \<open>\<^verbatim>\<open>needle in haystack\<close> for strings.\<close>

fun contains :: "string \<Rightarrow> string \<Rightarrow> bool" where
  "contains [] p = (p = [])"
| "contains (c # cs) p = (startswith (c # cs) p \<or> contains cs p)"

text \<open>
  \<^verbatim>\<open>d[k] = v\<close> on a dictionary kept as the list of its items in insertion order: an
  existing key keeps its place and takes the new value, a new key goes to the end.
\<close>

fun dict_setitem :: "('k \<times> 'v) list \<Rightarrow> 'k \<Rightarrow> 'v \<Rightarrow> ('k \<times> 'v) list" where
  "dict_setitem [] k v = [(k, v)]"
| "dict_setitem ((k', v') # d) k v =
     (if k' = k then (k', v) # d else (k', v') # dict_setitem d k v)"

text \<open>
  \<^verbatim>\<open>x if x else None\<close> followed by \<^verbatim>\<open>if x:\<close> on an optional container: both tests are
  Python truthiness, false for \<^verbatim>\<open>None\<close> and for the empty container.
\<close>

fun truthy :: "'a list option \<Rightarrow> bool" where
  "truthy None = False"
| "truthy (Some xs) = (xs \<noteq> [])"

definition or_None :: "'a list option \<Rightarrow> 'a list option" where
  "or_None x = (if truthy x then x else None)"

text \<open>\<^verbatim>\<open>file_list is None\<close>: \<^verbatim>\<open>namelist()\<close> returns a list object, which is never \<^verbatim>\<open>None\<close>.\<close>

definition is_None :: "'a list \<Rightarrow> bool" where
  "is_None xs = False"

subsection \<open>The archive walk of \<^verbatim>\<open>load_zip_file_handler\<close> (lines 145-165)\<close>

definition level_sav_of :: "string \<Rightarrow> string" where
  "level_sav_of save_id = save_id @ ''/Level.sav''"

definition is_player_file :: "string \<Rightarrow> string \<Rightarrow> bool" where
  "is_player_file save_id f =
     (startswith f (save_id @ ''/Players/'') \<and> endswith f ''.sav'')"

definition player_id_of :: "string \<Rightarrow> string" where
  "player_id_of player_file = fst (splitext (basename player_file))"

text \<open>
  The loop of lines 162-165. An exception of \<^verbatim>\<open>uuid.UUID\<close> or of \<^verbatim>\<open>zip_ref.read\<close> leaves
  the loop at once.
\<close>

fun read_players ::
  "(string \<Rightarrow> exn + 'u) \<Rightarrow> (string \<Rightarrow> exn + bytes) \<Rightarrow> string list \<Rightarrow> ('u \<times> bytes) list
     \<Rightarrow> exn + ('u \<times> bytes) list" where
  "read_players uuid rd [] player_data = Inr player_data"
| "read_players uuid rd (player_file # fs) player_data =
     (case uuid (player_id_of player_file) of
        Inl e \<Rightarrow> Inl e
      | Inr player_uuid \<Rightarrow>
          (case rd player_file of
             Inl e \<Rightarrow> Inl e
           | Inr bs \<Rightarrow> read_players uuid rd fs (dict_setitem player_data player_uuid bs)))"

definition level_sav_missing :: "(string \<Rightarrow> string) \<Rightarrow> string list \<Rightarrow> string" where
  "level_sav_missing r file_list =
     ''Zip file does not contain '' @ [CHR 0x27] @ ''Level.sav'' @ [CHR 0x27] @
     '', available files: '' @ repr_list r file_list"

subsection \<open>The handlers\<close>

text \<open>
  Each handler is its \<^verbatim>\<open>try\<close> block (\<open>_try\<close>: the outcome of the block and the state it
  reached) followed by its \<^verbatim>\<open>except Exception\<close> clause. A handler returns the outcome of
  the whole coroutine: \<open>Inl e\<close> would be an exception leaving it.
\<close>

text \<open>
  \<^verbatim>\<open>app_state.save_file.name\<close> when \<^verbatim>\<open>save_file\<close> is \<^verbatim>\<open>None\<close>.
\<close>

definition no_name :: exn where
  "no_name = AttributeError
     ([CHR 0x27] @ ''NoneType'' @ [CHR 0x27] @ '' object has no attribute '' @
      [CHR 0x27] @ ''name'' @ [CHR 0x27])"

text \<open>
  The tail both load handlers share (lines 34-46 and 175-190): build the summary, report
  progress, send the summary under the handler's message type, encode and send the players.
\<close>

definition send_loaded ::
  "('h, 'pl, 'u, 'pa, 'pp, 'j) env
     \<Rightarrow> MessageType
     \<Rightarrow> string
     \<Rightarrow> ('h, 'pl, 'u, 'pa, 'pp, 'j) world
     \<Rightarrow> (exn + unit) \<times> ('h, 'pl, 'u, 'pa, 'pp, 'j) world" where
  "send_loaded env t done_text w =
     (case save_file (app_state w) of
        None \<Rightarrow> (Inl no_name, w)
      | Some sf \<Rightarrow>
          (let w1 = ws_callback done_text w;
               w2 = send_json (build_response t (NameSize (name sf) (size_sf sf))) w1
           in case jsonable_encoder env (players (app_state w2)) of
                Inl e \<Rightarrow> (Inl e, w2)
              | Inr encoded \<Rightarrow>
                  (Inr (), send_json (build_response GET_PLAYERS (Encoded encoded)) w2)))"

definition load_save_file_try ::
  "('h, 'pl, 'u, 'pa, 'pp, 'j) env
     \<Rightarrow> bytes
     \<Rightarrow> ('h, 'pl, 'u, 'pa, 'pp, 'j) world
     \<Rightarrow> (exn + unit) \<times> ('h, 'pl, 'u, 'pa, 'pp, 'j) world" where
  "load_save_file_try env file_data w =
     (case process_save_file env file_data (app_state w) of
        (msgs, r, st) \<Rightarrow>
          (let w1 = report msgs
                      (w\<lparr>app_state := st, calls := calls w @ [ProcessSaveFile file_data]\<rparr>)
           in case r of
                Inl e \<Rightarrow> (Inl e, w1)
              | Inr _ \<Rightarrow>
                  send_loaded env LOAD_SAVE_FILE
                    ''File uploaded and processed successfully, results coming right up!'' w1))"

definition load_save_file_handler ::
  "('h, 'pl, 'u, 'pa, 'pp, 'j) env
     \<Rightarrow> bytes
     \<Rightarrow> ('h, 'pl, 'u, 'pa, 'pp, 'j) world
     \<Rightarrow> (exn + unit) \<times> ('h, 'pl, 'u, 'pa, 'pp, 'j) world" where
  "load_save_file_handler env message w =
     (case load_save_file_try env message w of
        (Inr u, w') \<Rightarrow> (Inr (), w')
      | (Inl e, w') \<Rightarrow>
          (Inr (),
           send_json (build_response ERROR (Text (''Error processing file: '' @ str_exn e))) w'))"

text \<open>The payload of \<^verbatim>\<open>UpdateSaveFileMessage\<close>.\<close>

record ('pa, 'pp) UpdateSaveFileData =
  modified_pals :: "'pa list option"
  modified_players :: "'pp list option"

text \<open>
  A call of a coroutine method of the save file (lines 76 and 78). The method works on
  the object that \<^verbatim>\<open>app_state.save_file\<close> refers to, so what it did to the object is in
  the application state whether it returned or raised.
\<close>

definition call_save_file ::
  "('h SaveFile \<Rightarrow> string list \<times> (exn + unit) \<times> 'h SaveFile) \<Rightarrow> ('u, 'pa, 'pp) engine_call
     \<Rightarrow> 'h SaveFile \<Rightarrow> ('h, 'pl, 'u, 'pa, 'pp, 'j) world \<Rightarrow> (exn + 'h SaveFile) \<times> ('h, 'pl, 'u, 'pa, 'pp, 'j) world" where
  "call_save_file method c sf w =
     (case method sf of
        (msgs, r, sf') \<Rightarrow>
          (let w' = report msgs
                      (w\<lparr>app_state := (app_state w)\<lparr>save_file := Some sf'\<rparr>,
                         calls := calls w @ [c]\<rparr>)
           in case r of
                Inl e \<Rightarrow> (Inl e, w')
              | Inr _ \<Rightarrow> (Inr sf', w')))"

definition update_save_file_try ::
  "('h, 'pl, 'u, 'pa, 'pp, 'j) env
     \<Rightarrow> ('pa, 'pp) UpdateSaveFileData
     \<Rightarrow> ('h, 'pl, 'u, 'pa, 'pp, 'j) world
     \<Rightarrow> (exn + unit) \<times> ('h, 'pl, 'u, 'pa, 'pp, 'j) world" where
  "update_save_file_try env message w =
     (let pals = or_None (modified_pals message);
          plrs = or_None (modified_players message)
      in case save_file (app_state w) of
           None \<Rightarrow> (Inl (ValueError ''No save file loaded''), w)
         | Some sf \<Rightarrow>
             (case (if truthy pals
                    then call_save_file (update_pals env (the pals)) (UpdatePals (the pals)) sf w
                    else (Inr sf, w)) of
                (Inl e, w1) \<Rightarrow> (Inl e, w1)
              | (Inr sf1, w1) \<Rightarrow>
                  (case (if truthy plrs
                         then call_save_file (update_players env (the plrs))
                                (UpdatePlayers (the plrs)) sf1 w1
                         else (Inr sf1, w1)) of
                     (Inl e, w2) \<Rightarrow> (Inl e, w2)
                   | (Inr sf2, w2) \<Rightarrow>
                       (let w3 = w2\<lparr>calls := calls w2 @ [GetPlayers]\<rparr>
                        in case get_players env sf2 of
                             Inl e \<Rightarrow> (Inl e, w3)
                           | Inr ps \<Rightarrow>
                               (let w4 = w3\<lparr>app_state := (app_state w3)\<lparr>players := ps\<rparr>\<rparr>;
                                    w5 = send_json
                                           (build_response UPDATE_SAVE_FILE (Text ''Changes saved''))
                                           w4
                                in case jsonable_encoder env (players (app_state w5)) of
                                     Inl e \<Rightarrow> (Inl e, w5)
                                   | Inr encoded \<Rightarrow>
                                       (Inr (),
                                        send_json
                                          (build_response GET_PLAYERS (Encoded encoded)) w5))))))"

definition update_save_file_handler ::
  "('h, 'pl, 'u, 'pa, 'pp, 'j) env
     \<Rightarrow> ('pa, 'pp) UpdateSaveFileData
     \<Rightarrow> ('h, 'pl, 'u, 'pa, 'pp, 'j) world
     \<Rightarrow> (exn + unit) \<times> ('h, 'pl, 'u, 'pa, 'pp, 'j) world" where
  "update_save_file_handler env message w =
     (case update_save_file_try env message w of
        (Inr u, w') \<Rightarrow> (Inr (), w')
      | (Inl e, w') \<Rightarrow>
          (Inr (),
           send_json (build_response ERROR (Text (''Error processing changes: '' @ str_exn e))) w'))"

text \<open>
  The two progress texts of the download end in an emoji; its UTF-8 bytes are written out.
\<close>

definition compressing_text :: string where
  "compressing_text =
     ''Compressing GVAS to sav '' @ [CHR 0xF0, CHR 0x9F, CHR 0x92, CHR 0xAA] @ ''...''"

definition encoding_text :: string where
  "encoding_text =
     ''Encoding sav file to base64 '' @ [CHR 0xF0, CHR 0x9F, CHR 0xA4, CHR 0x96] @
     '', get ready here it comes...''"

definition download_save_file_try ::
  "('h, 'pl, 'u, 'pa, 'pp, 'j) env
     \<Rightarrow> ('h, 'pl, 'u, 'pa, 'pp, 'j) world
     \<Rightarrow> (exn + unit) \<times> ('h, 'pl, 'u, 'pa, 'pp, 'j) world" where
  "download_save_file_try env w =
     (case save_file (app_state w) of
        None \<Rightarrow> (Inl (ValueError ''No save file loaded''), w)
      | Some sf \<Rightarrow>
          (let w1 = ws_callback compressing_text w;
               w2 = w1\<lparr>calls := calls w1 @ [Sav]\<rparr>
           in case sav env sf of
                Inl e \<Rightarrow> (Inl e, w2)
              | Inr sav_file \<Rightarrow>
                  (let w3 = ws_callback encoding_text w2;
                       encoded_data = b64encode sav_file
                   in (Inr (),
                       send_json
                         (build_response DOWNLOAD_SAVE_FILE
                            (NameContent ''Level.sav'' encoded_data)) w3))))"

definition download_save_file_handler ::
  "('h, 'pl, 'u, 'pa, 'pp, 'j) env
     \<Rightarrow> ('h, 'pl, 'u, 'pa, 'pp, 'j) world
     \<Rightarrow> (exn + unit) \<times> ('h, 'pl, 'u, 'pa, 'pp, 'j) world" where
  "download_save_file_handler env w =
     (case download_save_file_try env w of
        (Inr u, w') \<Rightarrow> (Inr (), w')
      | (Inl e, w') \<Rightarrow>
          (Inr (),
           send_json (build_response ERROR (Text (''Error downloading file: '' @ str_exn e))) w'))"

definition load_zip_file_try ::
  "('h, 'pl, 'u, 'pa, 'pp, 'j) env
     \<Rightarrow> bytes
     \<Rightarrow> ('h, 'pl, 'u, 'pa, 'pp, 'j) world
     \<Rightarrow> (exn + unit) \<times> ('h, 'pl, 'u, 'pa, 'pp, 'j) world" where
  "load_zip_file_try env zip_data w =
     (case ZipFile env zip_data of
        Inl e \<Rightarrow> (Inl e, w)
      | Inr zip_ref \<Rightarrow>
          (let file_list = namelist zip_ref
           in if is_None file_list then (Inl (ValueError ''Zip file is empty''), w)
              else
                (case file_list of
                   [] \<Rightarrow> (Inl (IndexError ''list index out of range''), w)
                 | first # _ \<Rightarrow>
                     (let save_id = first_segment first;
                          level_sav = level_sav_of save_id
                      in if level_sav \<notin> set file_list
                         then (Inl (ValueError (level_sav_missing (repr env) file_list)), w)
                         else
                           (case read zip_ref level_sav of
                              Inl e \<Rightarrow> (Inl e, w)
                            | Inr level_sav_data \<Rightarrow>
                                (let player_files = filter (is_player_file save_id) file_list
                                 in case read_players (UUID env) (read zip_ref) player_files [] of
                                      Inl e \<Rightarrow> (Inl e, w)
                                    | Inr player_data \<Rightarrow>
                                        (case process_save_files env save_id level_sav_data
                                                player_data (app_state w) of
                                           (msgs, r, st) \<Rightarrow>
                                             (let w1 = report msgs
                                                    (w\<lparr>app_state := st,
                                                       calls := calls w @
                                                         [ProcessSaveFiles save_id level_sav_data
                                                            player_data]\<rparr>)
                                              in case r of
                                                   Inl e \<Rightarrow> (Inl e, w1)
                                                 | Inr _ \<Rightarrow>
                                                     send_loaded env LOAD_ZIP_FILE
                                                       ''Zip file uploaded and processed successfully, results coming right up!''
                                                       w1))))))))"

definition load_zip_file_handler ::
  "('h, 'pl, 'u, 'pa, 'pp, 'j) env
     \<Rightarrow> bytes
     \<Rightarrow> ('h, 'pl, 'u, 'pa, 'pp, 'j) world
     \<Rightarrow> (exn + unit) \<times> ('h, 'pl, 'u, 'pa, 'pp, 'j) world" where
  "load_zip_file_handler env message w =
     (case load_zip_file_try env message w of
        (Inr u, w') \<Rightarrow> (Inr (), w')
      | (Inl e, w') \<Rightarrow>
          (Inr (),
           send_json (build_response ERROR (Text (''Error processing zip file: '' @ str_exn e))) w'))"

subsection \<open>Counting envelopes\<close>

text \<open>
  The terminal envelope types: the success type of each handler and \<^verbatim>\<open>ERROR\<close>.
  \<^verbatim>\<open>PROGRESS_MESSAGE\<close> and the \<^verbatim>\<open>GET_PLAYERS\<close> listing that follows a success are not terminal.
\<close>

fun is_terminal :: "MessageType \<Rightarrow> bool" where
  "is_terminal PROGRESS_MESSAGE = False"
| "is_terminal GET_PLAYERS = False"
| "is_terminal t = True"

definition terminals :: "'j response list \<Rightarrow> MessageType list" where
  "terminals rs = filter is_terminal (map msg_type rs)"

text \<open>The envelopes written between two states of the websocket.\<close>

definition emitted ::
  "('h, 'pl, 'u, 'pa, 'pp, 'j) world \<Rightarrow> ('h, 'pl, 'u, 'pa, 'pp, 'j) world \<Rightarrow> 'j response list" where
  "emitted w w' = drop (length (ws w)) (ws w')"

subsection \<open>The handlers over a connection that can refuse a write\<close>

























subsection \<open>An environment to run the handlers on\<close>

text \<open>
  A small engine for evaluating the handlers on concrete inputs. The save handle is the
  artifact itself, so \<^verbatim>\<open>sav\<close> returns it unchanged; the listing is the list of player keys;
  a pal patch appends its bytes to the handle; a player patch holding 0 is rejected; an
  empty artifact is rejected. \<open>hex_uuid\<close> reads 32 hexadecimal digits in either case with
  hyphens removed, as \<^verbatim>\<open>uuid.UUID\<close> does on such strings; \<open>quote\<close> puts a string in single
  quotes, as \<^verbatim>\<open>repr\<close> does on a string without quotes, backslashes or control characters.
\<close>

definition hex_digit :: "char \<Rightarrow> nat option" where
  "hex_digit c =
     (case index_of c ''0123456789abcdef'' of
        Some i \<Rightarrow> Some i
      | None \<Rightarrow> map_option (\<lambda>i. i + 10) (index_of c ''ABCDEF''))"

definition hex_uuid :: "string \<Rightarrow> exn + nat" where
  "hex_uuid s =
     (let h = filter (\<lambda>c. c \<noteq> CHR ''-'') s
      in if length h \<noteq> 32 then Inl (ValueError ''badly formed hexadecimal UUID string'')
         else if list_ex (\<lambda>c. hex_digit c = None) h
         then Inl (ValueError ''invalid literal for int() with base 16'')
         else Inr (foldl (\<lambda>n c. 16 * n + the (hex_digit c)) 0 h))"

definition quote :: "string \<Rightarrow> string" where
  "quote s = [CHR 0x27] @ s @ [CHR 0x27]"

definition stub_env :: "(bytes, nat list, nat, 8 word, nat, nat list) env" where
  "stub_env =
     \<lparr>process_save_file = (\<lambda>file_data st.
          if file_data = [] then ([''Loading''], Inl (Exception ''empty save''), st)
          else ([''Loading''], Inr (),
                \<lparr>save_file = Some \<lparr>name = ''Level.sav'', size_sf = int (length file_data),
                                    handle = file_data\<rparr>,
                 players = []\<rparr>)),
      process_save_files = (\<lambda>save_id level_sav_data player_data st.
          ([''Loading''], Inr (),
           \<lparr>save_file = Some \<lparr>name = save_id, size_sf = int (length level_sav_data),
                               handle = level_sav_data\<rparr>,
            players = map fst player_data\<rparr>)),
      update_pals = (\<lambda>ps sf. ([''Updating pals''], Inr (), sf\<lparr>handle := handle sf @ ps\<rparr>)),
      update_players = (\<lambda>ps sf.
          if 0 \<in> set ps then ([''Updating players''], Inl (Exception ''bad player''), sf)
          else ([''Updating players''], Inr (), sf)),
      get_players = (\<lambda>sf. Inr [length (handle sf)]),
      sav = (\<lambda>sf. Inr (handle sf)),
      jsonable_encoder = (\<lambda>ps. Inr ps),
      ZipFile = (\<lambda>zip_data. Inl (Exception ''File is not a zip file'')),
      UUID = hex_uuid,
      repr = quote\<rparr>"

text \<open>An archive with the given entry names; the content of an entry is its name's length.\<close>

definition archive :: "string list \<Rightarrow> zip_ref" where
  "archive names =
     \<lparr>namelist = names,
      read = (\<lambda>n. if n \<in> set names then Inr [of_nat (length n)]
                  else Inl (Exception ''There is no item with that name in the archive''))\<rparr>"

definition empty_world :: "(bytes, nat list, nat, 8 word, nat, nat list) world" where
  "empty_world = \<lparr>app_state = \<lparr>save_file = None, players = []\<rparr>, ws = [], calls = []\<rparr>"


text \<open>A state in which the three-byte artifact 1, 2, 3 is loaded and nothing was sent yet.\<close>

definition loaded_world :: "(bytes, nat list, nat, 8 word, nat, nat list) world" where
  "loaded_world =
     \<lparr>app_state = \<lparr>save_file = Some \<lparr>name = ''Level.sav'', size_sf = 3, handle = [1, 2, 3]\<rparr>,
                   players = []\<rparr>,
      ws = [], calls = []\<rparr>"

text \<open>The engine above behind an opener that returns the archive with the given entry names.\<close>

definition archive_env :: "string list \<Rightarrow> (bytes, nat list, nat, 8 word, nat, nat list) env" where
  "archive_env names = stub_env\<lparr>ZipFile := (\<lambda>zip_data. Inr (archive names))\<rparr>"

text \<open>
  Two listings for one bundle: the level file and one player file, and the same with three
  entries the walk passes over mixed in. \<open>two_archives_env\<close> opens the first for an empty
  payload and the second for any other.
\<close>

definition plain_names :: "string list" where
  "plain_names =
     [''S1/Level.sav'', ''S1/Players/11111111-1111-1111-1111-111111111111.sav'']"

definition cluttered_names :: "string list" where
  "cluttered_names =
     [''S1/Level.sav'', ''S1/notes.txt'', ''S1/Players/readme.md'', ''S2/Players/bogus.sav'',
      ''S1/Players/11111111-1111-1111-1111-111111111111.sav'']"

definition two_archives_env :: "(bytes, nat list, nat, 8 word, nat, nat list) env" where
  "two_archives_env =
     stub_env\<lparr>ZipFile := (\<lambda>zip_data.
        Inr (archive (if zip_data = [] then plain_names else cluttered_names)))\<rparr>"

text \<open>
  An archive given by its entries, name and content; \<^verbatim>\<open>read\<close> returns the content of the
  last entry of that name. \<open>case_variant_env\<close> opens a bundle whose two player files carry
  the same UUID, in upper-case and in lower-case digits.
\<close>

definition archive_with :: "(string \<times> bytes) list \<Rightarrow> zip_ref" where
  "archive_with entries =
     \<lparr>namelist = map fst entries,
      read = (\<lambda>n. case map_of (rev entries) n of
                    Some bs \<Rightarrow> Inr bs
                  | None \<Rightarrow> Inl (Exception ''There is no item with that name in the archive''))\<rparr>"

definition case_variant_entries :: "(string \<times> bytes) list" where
  "case_variant_entries =
     [(''S1/Level.sav'', [9]),
      (''S1/Players/AAAAAAAA-1111-1111-1111-111111111111.sav'', [1]),
      (''S1/Players/aaaaaaaa-1111-1111-1111-111111111111.sav'', [2])]"

definition case_variant_env :: "(bytes, nat list, nat, 8 word, nat, nat list) env" where
  "case_variant_env =
     stub_env\<lparr>ZipFile := (\<lambda>zip_data. Inr (archive_with case_variant_entries))\<rparr>"

subsection \<open>Entries the archive walk passes over\<close>

text \<open>
  An entry that is neither \<^verbatim>\<open><save_id>/Level.sav\<close> nor selected by the comprehension of
  lines 156-160.
\<close>

definition is_ignored :: "string \<Rightarrow> string \<Rightarrow> bool" where
  "is_ignored save_id f = (f \<noteq> level_sav_of save_id \<and> \<not> is_player_file save_id f)"

subsection \<open>Base64 round trip\<close>

lemma b64_index_char_all:
  "\<forall>i \<in> set [0..<64]. b64_index (b64_char i) = Some i \<and> b64_char i \<noteq> CHR ''=''"
  by code_simp

lemma b64_index_char: "b64_index (b64_char i) = Some (i mod 64)"
proof -
  have "i mod 64 \<in> set [0..<64]" by simp
  with b64_index_char_all have "b64_index (b64_char (i mod 64)) = Some (i mod 64)"
    by blast
  then show ?thesis by (simp add: b64_char_def)
qed

lemma b64_char_not_pad: "b64_char i \<noteq> CHR ''=''"
proof -
  have "i mod 64 \<in> set [0..<64]" by simp
  with b64_index_char_all have "b64_char (i mod 64) \<noteq> CHR ''=''"
    by blast
  then show ?thesis by (simp add: b64_char_def)
qed

lemma sextets2: "n < 4096 \<Longrightarrow> (n div 64) mod 64 * 64 + n mod 64 = (n::nat)"
  by simp

lemma sextets3:
  "n < 262144 \<Longrightarrow> ((n div 4096) mod 64 * 64 + (n div 64) mod 64) * 64 + n mod 64 = (n::nat)"
proof -
  assume lt: "n < 262144"
  have d: "n div 4096 = n div 64 div 64" by (simp add: div_mult2_eq [symmetric])
  have "n div 64 < 4096" using lt by simp
  from sextets2 [OF this] show ?thesis by (simp add: d)
qed

lemma sextets4:
  "n < 16777216 \<Longrightarrow>
   (((n div 262144) mod 64 * 64 + (n div 4096) mod 64) * 64 + (n div 64) mod 64) * 64 + n mod 64
     = (n::nat)"
proof -
  assume lt: "n < 16777216"
  have d: "n div 262144 = n div 64 div 4096" "n div 4096 = n div 64 div 64"
    by (simp_all add: div_mult2_eq [symmetric])
  have "n div 64 < 262144" using lt by simp
  from sextets3 [OF this] show ?thesis by (simp add: d)
qed

lemma byte_of_nat: "m mod 256 = unat a \<Longrightarrow> (of_nat m :: 8 word) = a"
proof -
  assume h: "m mod 256 = unat a"
  have "unat (of_nat m :: 8 word) = m mod 256" by (simp add: unat_of_nat)
  with h show ?thesis by (simp add: word_unat_eq_iff)
qed

lemma unat_byte: "unat (a :: 8 word) < 256"
  using unsigned_less [of a, where 'a = nat] by simp

lemma b64_group_char:
  "b64_group (b64_char i1) (b64_char i2) (b64_char i3) (b64_char i4) =
     Some (((i1 mod 64 * 64 + i2 mod 64) * 64 + i3 mod 64) * 64 + i4 mod 64)"
  by (simp add: b64_group_def b64_index_char)

lemma b64_char_0: "CHR ''A'' = b64_char 0"
  by code_simp

lemma b64decode_1: "b64decode (b64encode [a]) = Some [a]"
proof -
  define n where "n = unat a * 16"
  have lt: "n < 4096" using unat_byte [of a] by (simp add: n_def)
  have g: "b64_group (b64_char (n div 64)) (b64_char n) CHR ''A'' CHR ''A'' = Some (n * 4096)"
  proof -
    have "((n div 64 mod 64 * 64 + n mod 64) * 64 + 0 mod 64) * 64 + 0 mod 64 = n * 4096"
      using sextets2 [OF lt] by simp
    then show ?thesis unfolding b64_char_0 b64_group_char by (simp only:)
  qed
  have "(n * 4096) div 65536 = unat a" by (simp add: n_def)
  then have "(of_nat ((n * 4096) div 65536) :: 8 word) = a" by simp
  then show ?thesis
    by (simp add: n_def [symmetric] Let_def g b64_char_not_pad)
qed

lemma b64decode_2: "b64decode (b64encode [a, b]) = Some [a, b]"
proof -
  define n where "n = unat a * 1024 + unat b * 4"
  have lt: "n < 262144" using unat_byte [of a] unat_byte [of b] by (simp add: n_def)
  have g: "b64_group (b64_char (n div 4096)) (b64_char (n div 64)) (b64_char n) CHR ''A''
             = Some (n * 64)"
  proof -
    have "n div 4096 mod 64 = n div 4096" using lt by simp
    with sextets3 [OF lt]
    have "((n div 4096 mod 64 * 64 + n div 64 mod 64) * 64 + n mod 64) * 64 + 0 mod 64 = n * 64"
      by simp
    then show ?thesis unfolding b64_char_0 b64_group_char by (simp only:)
  qed
  have "n div 1024 = unat a" using unat_byte [of b] by (simp add: n_def)
  then have a: "(of_nat (n div 1024) :: 8 word) = a" by simp
  have "n div 4 = unat a * 256 + unat b" by (simp add: n_def)
  then have "(n div 4) mod 256 = unat b" using unat_byte [of b] by simp
  then have b: "(of_nat (n div 4) :: 8 word) = b" by (rule byte_of_nat)
  show ?thesis
    by (simp add: n_def [symmetric] Let_def g a b b64_char_not_pad)
qed

lemma b64decode_3:
  "b64decode (b64encode (a # b # c # rest)) =
     map_option (\<lambda>bs. a # b # c # bs) (b64decode (b64encode rest))"
proof -
  define n where "n = unat a * 65536 + unat b * 256 + unat c"
  have lt: "n < 16777216"
    using unat_byte [of a] unat_byte [of b] unat_byte [of c] by (simp add: n_def)
  have g: "b64_group (b64_char (n div 262144)) (b64_char (n div 4096)) (b64_char (n div 64))
             (b64_char n) = Some n"
    unfolding b64_group_char by (simp only: sextets4 [OF lt])
  have "n div 65536 = unat a" using unat_byte [of b] unat_byte [of c] by (simp add: n_def)
  then have a: "(of_nat (n div 65536) :: 8 word) = a" by simp
  have n256: "n = (unat a * 256 + unat b) * 256 + unat c" by (simp add: n_def)
  then have "n div 256 = unat a * 256 + unat b" using unat_byte [of c] by simp
  then have "(n div 256) mod 256 = unat b" using unat_byte [of b] by simp
  then have b: "(of_nat (n div 256) :: 8 word) = b" by (rule byte_of_nat)
  have "((unat a * 256 + unat b) * 256 + unat c) mod 256 = unat c mod 256"
    by (rule mod_mult_self3)
  then have "n mod 256 = unat c" using unat_byte [of c] by (simp only: n256 mod_less)
  then have c: "(of_nat n :: 8 word) = c" by (rule byte_of_nat)
  show ?thesis
    by (simp add: n_def [symmetric] Let_def g a b c b64_char_not_pad split: option.splits)
qed

lemma b64decode_b64encode: "b64decode (b64encode x) = Some x"
proof (induction x rule: b64encode.induct)
  case 1
  show ?case by simp
next
  case (2 a)
  show ?case by (rule b64decode_1)
next
  case (3 a b)
  show ?case by (rule b64decode_2)
next
  case (4 a b c rest)
  then show ?case by (simp only: b64decode_3 option.map)
qed

subsection \<open>Envelopes and state across the helper steps\<close>

lemma ws_report:
  "ws (report msgs w) = ws w @ map (\<lambda>m. build_response PROGRESS_MESSAGE (Text m)) msgs"
  unfolding report_def
  by (induction msgs arbitrary: w) (simp_all add: ws_callback_def send_json_def)

lemma app_state_report: "app_state (report msgs w) = app_state w"
  unfolding report_def
  by (induction msgs arbitrary: w) (simp_all add: ws_callback_def send_json_def)

lemma calls_report: "calls (report msgs w) = calls w"
  unfolding report_def
  by (induction msgs arbitrary: w) (simp_all add: ws_callback_def send_json_def)

lemma app_state_send_loaded: "app_state (snd (send_loaded env t txt w)) = app_state w"
  by (simp add: send_loaded_def ws_callback_def send_json_def Let_def
      split: option.splits sum.splits)

lemma load_save_file_state:
  "process_save_file env x (app_state w) = (msgs, r, st) \<Longrightarrow>
   app_state (snd (load_save_file_handler env x w)) = st"
  by (simp add: load_save_file_handler_def load_save_file_try_def send_loaded_def
      ws_callback_def send_json_def Let_def app_state_report
      split: option.splits sum.splits prod.splits)

lemma download_loaded:
  "save_file (app_state w) = Some sf \<Longrightarrow> sav env sf = Inr x \<Longrightarrow>
   download_save_file_handler env w =
     (Inr (), w\<lparr>ws := ws w @
        [build_response PROGRESS_MESSAGE (Text compressing_text),
         build_response PROGRESS_MESSAGE (Text encoding_text),
         build_response DOWNLOAD_SAVE_FILE (NameContent ''Level.sav'' (b64encode x))],
        calls := calls w @ [Sav]\<rparr>)"
  by (simp add: download_save_file_handler_def download_save_file_try_def
      ws_callback_def send_json_def Let_def)

subsection \<open>Load followed by download\<close>

lemma b64encode_123: "b64encode [1, 2, 3] = ''AQID''"
  by (simp add: b64_char_def b64_alphabet_def)

text \<open>
  C1. When \<^verbatim>\<open>process_save_file\<close> accepts the artifact \<open>x\<close> and leaves a save file from which
  \<^verbatim>\<open>sav()\<close> gives back \<open>x\<close> (the engine is lossless on \<open>x\<close>), a \<^verbatim>\<open>LOAD_SAVE_FILE\<close> message
  carrying \<open>x\<close> followed at once by a \<^verbatim>\<open>DOWNLOAD_SAVE_FILE\<close> message makes the download
  handler write two progress envelopes and then one \<^verbatim>\<open>DOWNLOAD_SAVE_FILE\<close> envelope, named
  \<^verbatim>\<open>Level.sav\<close>, whose content is the base64 text of \<open>x\<close>; decoding that text gives \<open>x\<close> back,
  byte for byte.
\<close>

theorem load_then_download_roundtrip:
  assumes ingest: "process_save_file env x (app_state w) = (msgs, Inr (), st)"
    and loaded: "save_file st = Some sf"
    and lossless: "sav env sf = Inr x"
  shows "emitted (snd (load_save_file_handler env x w))
           (snd (download_save_file_handler env (snd (load_save_file_handler env x w)))) =
         [build_response PROGRESS_MESSAGE (Text compressing_text),
          build_response PROGRESS_MESSAGE (Text encoding_text),
          build_response DOWNLOAD_SAVE_FILE (NameContent ''Level.sav'' (b64encode x))]
         \<and> b64decode (b64encode x) = Some x"
proof -
  define w1 where "w1 = snd (load_save_file_handler env x w)"
  have "app_state w1 = st"
    unfolding w1_def using ingest by (rule load_save_file_state)
  with loaded have "save_file (app_state w1) = Some sf" by simp
  from download_loaded [OF this lossless]
  have "emitted w1 (snd (download_save_file_handler env w1)) =
         [build_response PROGRESS_MESSAGE (Text compressing_text),
          build_response PROGRESS_MESSAGE (Text encoding_text),
          build_response DOWNLOAD_SAVE_FILE (NameContent ''Level.sav'' (b64encode x))]"
    by (simp add: emitted_def)
  then show ?thesis
    unfolding w1_def by (simp add: b64decode_b64encode)
qed

theorem load_then_download_roundtrip_witness:
  "process_save_file stub_env [1, 2, 3] (app_state empty_world) =
     ([''Loading''], Inr (),
      \<lparr>save_file = Some \<lparr>name = ''Level.sav'', size_sf = 3, handle = [1, 2, 3]\<rparr>,
       players = []\<rparr>)
   \<and> sav stub_env \<lparr>name = ''Level.sav'', size_sf = 3, handle = [1, 2, 3]\<rparr> = Inr [1, 2, 3]
   \<and> emitted (snd (load_save_file_handler stub_env [1, 2, 3] empty_world))
        (snd (download_save_file_handler stub_env
               (snd (load_save_file_handler stub_env [1, 2, 3] empty_world)))) =
      [build_response PROGRESS_MESSAGE (Text compressing_text),
       build_response PROGRESS_MESSAGE (Text encoding_text),
       build_response DOWNLOAD_SAVE_FILE (NameContent ''Level.sav'' ''AQID'')]
   \<and> b64decode ''AQID'' = Some [1, 2, 3]"
proof -
  have h1: "process_save_file stub_env [1, 2, 3] (app_state empty_world) =
     ([''Loading''], Inr (),
      \<lparr>save_file = Some \<lparr>name = ''Level.sav'', size_sf = 3, handle = [1, 2, 3]\<rparr>,
       players = []\<rparr>)"
    by (simp add: stub_env_def)
  have h2: "save_file \<lparr>save_file = Some \<lparr>name = ''Level.sav'', size_sf = 3, handle = [1, 2, 3]\<rparr>,
       players = ([]::nat list)\<rparr> = Some \<lparr>name = ''Level.sav'', size_sf = 3, handle = [1, 2, 3::8 word]\<rparr>"
    by simp
  have h3: "sav stub_env \<lparr>name = ''Level.sav'', size_sf = 3, handle = [1, 2, 3]\<rparr> = Inr [1, 2, 3]"
    by (simp add: stub_env_def)
  from load_then_download_roundtrip [OF h1 h2 h3] h1 h3 show ?thesis
    by (simp only: b64encode_123 simp_thms)
qed

subsection \<open>More on the helper steps\<close>

lemma call_save_fileD:
  "call_save_file m c sf w = (r, w') \<Longrightarrow>
     ws w' = ws w @ map (\<lambda>t. build_response PROGRESS_MESSAGE (Text t)) (fst (m sf))
     \<and> app_state w' = (app_state w)\<lparr>save_file := Some (snd (snd (m sf)))\<rparr>
     \<and> calls w' = calls w @ [c]"
  by (auto simp add: call_save_file_def Let_def ws_report app_state_report calls_report
      split: prod.splits sum.splits)

lemma terminals_append: "terminals (xs @ ys) = terminals xs @ terminals ys"
  by (simp add: terminals_def)


lemma terminals_Nil: "terminals [] = []"
  by (simp add: terminals_def)

lemma terminals_Cons:
  "terminals (build_response t d # rs) = (if is_terminal t then t # terminals rs else terminals rs)"
  by (simp add: terminals_def build_response_def)

lemma emitted_append: "ws w' = ws w @ ys \<Longrightarrow> emitted w w' = ys"
  by (simp add: emitted_def)

subsection \<open>Update and download before any load\<close>



subsection \<open>An archive with no entries\<close>

text \<open>
  C4. For an archive whose \<^verbatim>\<open>namelist()\<close> is empty the guard \<^verbatim>\<open>file_list is None\<close> does not
  fire; \<^verbatim>\<open>file_list[0]\<close>, the first step of the root-id derivation, raises \<^verbatim>\<open>IndexError\<close>,
  and the envelope sent is \<^verbatim>\<open>Error processing zip file: list index out of range\<close>, not the
  \<^verbatim>\<open>Zip file is empty\<close> error the guard was written for.
\<close>

theorem empty_archive_index_error:
  assumes "ZipFile env zip_data = Inr z" and "namelist z = []"
  shows "load_zip_file_handler env zip_data w =
           (Inr (), w\<lparr>ws := ws w @
              [build_response ERROR
                 (Text ''Error processing zip file: list index out of range'')]\<rparr>)"
  using assms
  by (simp add: load_zip_file_handler_def load_zip_file_try_def is_None_def send_json_def Let_def)

theorem empty_archive_index_error_witness:
  "ZipFile (stub_env\<lparr>ZipFile := (\<lambda>zip_data. Inr (archive []))\<rparr>) [] = Inr (archive [])
   \<and> namelist (archive []) = []
   \<and> load_zip_file_handler (stub_env\<lparr>ZipFile := (\<lambda>zip_data. Inr (archive []))\<rparr>) [] empty_world =
       (Inr (), empty_world\<lparr>ws := ws empty_world @
          [build_response ERROR (Text ''Error processing zip file: list index out of range'')]\<rparr>)"
proof -
  have h1: "ZipFile (stub_env\<lparr>ZipFile := (\<lambda>zip_data. Inr (archive []))\<rparr>) [] = Inr (archive [])"
    by simp
  have h2: "namelist (archive []) = []" by (simp add: archive_def)
  from empty_archive_index_error [OF h1 h2, of empty_world] h1 h2 show ?thesis by simp
qed

subsection \<open>A failed update and the stored listing\<close>

lemma update_try_keeps_listing:
  assumes "save_file (app_state w) = Some sf"
    and "update_save_file_try env message w = (Inl e, w')"
    and "UPDATE_SAVE_FILE \<notin> set (map msg_type (emitted w w'))"
  shows "players (app_state w') = players (app_state w)"
  using assms
  by (auto simp add: update_save_file_try_def send_json_def Let_def
      emitted_def build_response_def
      split: if_splits prod.splits sum.splits dest!: call_save_fileD)

lemma update_rejected_player:
  "update_save_file_try stub_env \<lparr>modified_pals = Some [7], modified_players = Some [0]\<rparr>
     loaded_world =
   (Inl (Exception ''bad player''),
    \<lparr>app_state = \<lparr>save_file = Some \<lparr>name = ''Level.sav'', size_sf = 3, handle = [1, 2, 3, 7]\<rparr>,
                  players = []\<rparr>,
     ws = [build_response PROGRESS_MESSAGE (Text ''Updating pals''),
           build_response PROGRESS_MESSAGE (Text ''Updating players'')],
     calls = [UpdatePals [7], UpdatePlayers [0]]\<rparr>)"
  by (simp add: update_save_file_try_def call_save_file_def or_None_def report_def
      ws_callback_def send_json_def Let_def stub_env_def loaded_world_def)

text \<open>
  C8. When a save is loaded and the \<^verbatim>\<open>try\<close> block of the update handler raises before the
  \<^verbatim>\<open>UPDATE_SAVE_FILE\<close> acknowledgement is sent (that is, in \<^verbatim>\<open>update_pals\<close>, in
  \<^verbatim>\<open>update_players\<close> or in \<^verbatim>\<open>get_players\<close>), \<^verbatim>\<open>app_state.players\<close> after the request is what it
  was before it. The witness also shows the save handle changed by the pal patch that had
  already been applied when the player patch was rejected.
\<close>

theorem update_failure_keeps_listing:
  assumes loaded: "save_file (app_state w) = Some sf"
    and raised: "fst (update_save_file_try env message w) = Inl e"
    and early: "UPDATE_SAVE_FILE \<notin>
           set (map msg_type (emitted w (snd (update_save_file_try env message w))))"
  shows "players (app_state (snd (update_save_file_handler env message w))) = players (app_state w)"
proof -
  obtain w' where tr: "update_save_file_try env message w = (Inl e, w')"
    using raised by (cases "update_save_file_try env message w") simp
  from early tr have "UPDATE_SAVE_FILE \<notin> set (map msg_type (emitted w w'))"
    by simp
  from update_try_keeps_listing [OF loaded tr this]
  have "players (app_state w') = players (app_state w)" .
  then show ?thesis
    by (simp add: update_save_file_handler_def tr send_json_def)
qed

theorem update_failure_keeps_listing_witness:
  "save_file (app_state loaded_world) =
     Some \<lparr>name = ''Level.sav'', size_sf = 3, handle = [1, 2, 3]\<rparr>
   \<and> fst (update_save_file_try stub_env
            \<lparr>modified_pals = Some [7], modified_players = Some [0]\<rparr> loaded_world) =
       Inl (Exception ''bad player'')
   \<and> UPDATE_SAVE_FILE \<notin>
       set (map msg_type (emitted loaded_world (snd (update_save_file_try stub_env
            \<lparr>modified_pals = Some [7], modified_players = Some [0]\<rparr> loaded_world))))
   \<and> players (app_state (snd (update_save_file_handler stub_env
            \<lparr>modified_pals = Some [7], modified_players = Some [0]\<rparr> loaded_world))) =
       players (app_state loaded_world)
   \<and> save_file (app_state (snd (update_save_file_handler stub_env
            \<lparr>modified_pals = Some [7], modified_players = Some [0]\<rparr> loaded_world))) =
       Some \<lparr>name = ''Level.sav'', size_sf = 3, handle = [1, 2, 3, 7]\<rparr>"
proof -
  have h1: "save_file (app_state loaded_world) =
     Some \<lparr>name = ''Level.sav'', size_sf = 3, handle = [1, 2, 3]\<rparr>"
    by (simp add: loaded_world_def)
  have h2: "fst (update_save_file_try stub_env
            \<lparr>modified_pals = Some [7], modified_players = Some [0]\<rparr> loaded_world) =
       Inl (Exception ''bad player'')"
    by (simp add: update_rejected_player)
  have h3: "UPDATE_SAVE_FILE \<notin>
       set (map msg_type (emitted loaded_world (snd (update_save_file_try stub_env
            \<lparr>modified_pals = Some [7], modified_players = Some [0]\<rparr> loaded_world))))"
    unfolding update_rejected_player
    by (simp add: emitted_def loaded_world_def build_response_def)
  have h4: "save_file (app_state (snd (update_save_file_handler stub_env
            \<lparr>modified_pals = Some [7], modified_players = Some [0]\<rparr> loaded_world))) =
       Some \<lparr>name = ''Level.sav'', size_sf = 3, handle = [1, 2, 3, 7]\<rparr>"
    by (simp add: update_save_file_handler_def update_rejected_player send_json_def)
  from update_failure_keeps_listing [OF h1 h2 h3] h1 h2 h3 h4 show ?thesis
    by blast
qed

subsection \<open>A failed load\<close>




subsection \<open>Terminal envelopes per inbound message\<close>



lemma send_loaded_terminals:
  "send_loaded env t txt w = (r, w') \<Longrightarrow> is_terminal t \<Longrightarrow>
     app_state w' = app_state w \<and> calls w' = calls w \<and>
     ((r = Inr () \<and> terminals (emitted w w') = [t])
      \<or> (\<exists>e. r = Inl e \<and>
            (terminals (emitted w w') = []
             \<or> terminals (emitted w w') = [t]
               \<and> jsonable_encoder env (players (app_state w')) = Inl e)))"
  by (auto simp add: send_loaded_def ws_callback_def send_json_def Let_def emitted_def
      terminals_append terminals_Nil terminals_Cons
      split: option.splits sum.splits)











subsection \<open>Terminal envelopes over a connection that can refuse a write\<close>






















subsection \<open>The two embeddings agree while every write is taken\<close>

























subsection \<open>A bundle without its level file\<close>

lemma startswith_append: "startswith (p @ ys) p"
  by (simp add: startswith_def)

lemma startswith_contains: "startswith s p \<Longrightarrow> contains s p"
  by (cases s) (simp_all add: startswith_def)

lemma contains_append: "contains (xs @ p @ ys) p"
proof (induction xs)
  case Nil
  show ?case using startswith_append [of p ys] by (simp add: startswith_contains)
next
  case (Cons x xs)
  then show ?case by simp
qed

lemma join_member: "f \<in> set xs \<Longrightarrow> \<exists>a b. join sep xs = a @ f @ b"
proof (induction sep xs rule: join.induct)
  case (1 sep)
  then show ?case by simp
next
  case (2 sep x)
  then have "join sep [x] = [] @ f @ []" by simp
  then show ?case by blast
next
  case (3 sep x y ys)
  show ?case
  proof (cases "f = x")
    case True
    then have "join sep (x # y # ys) = [] @ f @ (sep @ join sep (y # ys))" by simp
    then show ?thesis by blast
  next
    case False
    with 3 obtain a b where "join sep (y # ys) = a @ f @ b" by auto
    then have "join sep (x # y # ys) = (x @ sep @ a) @ f @ b" by simp
    then show ?thesis by blast
  qed
qed

lemma repr_list_contains: "f \<in> set xs \<Longrightarrow> contains (pre @ repr_list r xs) (r f)"
proof -
  assume "f \<in> set xs"
  then have "r f \<in> set (map r xs)" by simp
  from join_member [OF this] obtain a b where "join '', '' (map r xs) = a @ r f @ b"
    by blast
  then have "pre @ repr_list r xs = (pre @ ''['' @ a) @ r f @ (b @ '']'')"
    by (simp add: repr_list_def)
  then show ?thesis by (simp only: contains_append)
qed

lemma level_sav_missing_names:
  "contains (pre @ level_sav_missing r xs) ([CHR 0x27] @ ''Level.sav'' @ [CHR 0x27])"
proof -
  have "pre @ level_sav_missing r xs =
          (pre @ ''Zip file does not contain '') @ ([CHR 0x27] @ ''Level.sav'' @ [CHR 0x27]) @
          ('', available files: '' @ repr_list r xs)"
    by (simp add: level_sav_missing_def)
  then show ?thesis by (simp only: contains_append)
qed

text \<open>
  C7, as amended. For a non-empty listing that lacks \<^verbatim>\<open><save_id>/Level.sav\<close>, where
  \<^verbatim>\<open>save_id\<close> is the first path segment of the first entry, the handler changes nothing but
  the websocket, to which it writes one \<^verbatim>\<open>ERROR\<close> envelope. Its text is
  \<^verbatim>\<open>Error processing zip file: Zip file does not contain 'Level.sav', available files: \<close>
  followed by the Python list of the whole listing: it names the missing file as
  \<^verbatim>\<open>'Level.sav'\<close>, without the root, and holds the \<^verbatim>\<open>repr\<close> of every entry of the listing.
\<close>

theorem missing_level_sav_message:
  assumes "ZipFile env zip_data = Inr z"
    and "namelist z = first # rest"
    and "level_sav_of (first_segment first) \<notin> set (namelist z)"
  shows "load_zip_file_handler env zip_data w =
           (Inr (), w\<lparr>ws := ws w @
              [build_response ERROR
                 (Text (''Error processing zip file: '' @
                        level_sav_missing (repr env) (namelist z)))]\<rparr>)
       \<and> contains (''Error processing zip file: '' @ level_sav_missing (repr env) (namelist z))
            ([CHR 0x27] @ ''Level.sav'' @ [CHR 0x27])
       \<and> (\<forall>f \<in> set (namelist z).
             contains (''Error processing zip file: '' @ level_sav_missing (repr env) (namelist z))
               (repr env f))"
proof -
  have "load_zip_file_handler env zip_data w =
           (Inr (), w\<lparr>ws := ws w @
              [build_response ERROR
                 (Text (''Error processing zip file: '' @
                        level_sav_missing (repr env) (namelist z)))]\<rparr>)"
    using assms
    by (simp add: load_zip_file_handler_def load_zip_file_try_def is_None_def send_json_def Let_def)
  moreover have "\<forall>f \<in> set (namelist z).
             contains (''Error processing zip file: '' @ level_sav_missing (repr env) (namelist z))
               (repr env f)"
  proof
    fix f assume "f \<in> set (namelist z)"
    from repr_list_contains [OF this, of
        "''Error processing zip file: '' @ ''Zip file does not contain '' @ [CHR 0x27] @
         ''Level.sav'' @ [CHR 0x27] @ '', available files: ''" "repr env"]
    show "contains (''Error processing zip file: '' @ level_sav_missing (repr env) (namelist z))
               (repr env f)"
      by (simp add: level_sav_missing_def)
  qed
  ultimately show ?thesis
    using level_sav_missing_names [of "''Error processing zip file: ''" "repr env" "namelist z"]
    by blast
qed

theorem missing_level_sav_message_witness:
  "ZipFile (archive_env [''S1/Players/bogus.sav'', ''S1/notes.txt'']) []
     = Inr (archive [''S1/Players/bogus.sav'', ''S1/notes.txt''])
   \<and> namelist (archive [''S1/Players/bogus.sav'', ''S1/notes.txt''])
     = [''S1/Players/bogus.sav'', ''S1/notes.txt'']
   \<and> level_sav_of (first_segment ''S1/Players/bogus.sav'')
     \<notin> set (namelist (archive [''S1/Players/bogus.sav'', ''S1/notes.txt'']))
   \<and> emitted empty_world
        (snd (load_zip_file_handler (archive_env [''S1/Players/bogus.sav'', ''S1/notes.txt''])
               [] empty_world)) =
      [build_response ERROR
         (Text (''Error processing zip file: Zip file does not contain '' @ [CHR 0x27] @
                ''Level.sav'' @ [CHR 0x27] @ '', available files: ['' @ [CHR 0x27] @
                ''S1/Players/bogus.sav'' @ [CHR 0x27] @ '', '' @ [CHR 0x27] @
                ''S1/notes.txt'' @ [CHR 0x27] @ '']''))]
   \<and> contains
         (''Error processing zip file: '' @
          level_sav_missing quote [''S1/Players/bogus.sav'', ''S1/notes.txt''])
         (quote ''S1/notes.txt'')"
proof -
  have h1: "ZipFile (archive_env [''S1/Players/bogus.sav'', ''S1/notes.txt'']) []
     = Inr (archive [''S1/Players/bogus.sav'', ''S1/notes.txt''])"
    by (simp add: archive_env_def)
  have h2: "namelist (archive [''S1/Players/bogus.sav'', ''S1/notes.txt''])
     = [''S1/Players/bogus.sav'', ''S1/notes.txt'']"
    by (simp add: archive_def)
  have h3: "level_sav_of (first_segment ''S1/Players/bogus.sav'')
     \<notin> set (namelist (archive [''S1/Players/bogus.sav'', ''S1/notes.txt'']))"
    by (simp add: archive_def level_sav_of_def first_segment_def)
  have r: "repr (archive_env [''S1/Players/bogus.sav'', ''S1/notes.txt'']) = quote"
    by (simp add: archive_env_def stub_env_def)
  from missing_level_sav_message [OF h1 h2 h3, of empty_world] h1 h2 h3 show ?thesis
    by (simp add: r emitted_def empty_world_def level_sav_missing_def repr_list_def quote_def)
qed

text \<open>
  C7 as stated fails: for the listing \<^verbatim>\<open>["S1/Players/bogus.sav"]\<close> the root is \<^verbatim>\<open>S1\<close> and the
  text of the error does not contain \<^verbatim>\<open>S1/Level.sav\<close>.
\<close>

lemma bogus_archive_run:
  "load_zip_file_handler (archive_env [''S1/Players/bogus.sav'']) [] empty_world =
     (Inr (), empty_world\<lparr>ws := ws empty_world @
        [build_response ERROR
           (Text (''Error processing zip file: '' @
                  level_sav_missing quote [''S1/Players/bogus.sav'']))]\<rparr>)"
  by (simp add: load_zip_file_handler_def load_zip_file_try_def is_None_def send_json_def Let_def
      archive_env_def archive_def stub_env_def first_segment_def level_sav_of_def)

theorem missing_level_sav_message_counterexample:
  "first_segment ''S1/Players/bogus.sav'' = ''S1''
   \<and> emitted empty_world
        (snd (load_zip_file_handler (archive_env [''S1/Players/bogus.sav'']) [] empty_world)) =
      [build_response ERROR
         (Text (''Error processing zip file: Zip file does not contain '' @ [CHR 0x27] @
                ''Level.sav'' @ [CHR 0x27] @ '', available files: ['' @ [CHR 0x27] @
                ''S1/Players/bogus.sav'' @ [CHR 0x27] @ '']''))]
   \<and> \<not> contains
         (''Error processing zip file: Zip file does not contain '' @ [CHR 0x27] @
          ''Level.sav'' @ [CHR 0x27] @ '', available files: ['' @ [CHR 0x27] @
          ''S1/Players/bogus.sav'' @ [CHR 0x27] @ '']'')
         ''S1/Level.sav''"
  by (simp add: bogus_archive_run emitted_def level_sav_missing_def repr_list_def quote_def
      first_segment_def startswith_def)

subsection \<open>A player file whose name is not a UUID\<close>




lemma player_id_of_ones:
  "player_id_of ''S1/Players/11111111-1111-1111-1111-111111111111.sav'' =
     ''11111111-1111-1111-1111-111111111111''"
  by (simp add: player_id_of_def basename_def splitext_def rfind_def Let_def)


lemma hex_uuid_ones:
  "hex_uuid ''11111111-1111-1111-1111-111111111111'' = Inr 0x11111111111111111111111111111111"
  by (simp add: hex_uuid_def hex_digit_def Let_def)



subsection \<open>Entries that are neither the level file nor a player file\<close>

lemma read_players_cong:
  "(\<And>f. f \<in> set fs \<Longrightarrow> rd' f = rd f) \<Longrightarrow>
   read_players uuid rd' fs pd = read_players uuid rd fs pd"
  by (induction fs arbitrary: pd) (simp_all split: sum.splits)

lemma filter_player_not_ignored:
  "filter (is_player_file sid) (filter (\<lambda>f. \<not> is_ignored sid f) xs) =
   filter (is_player_file sid) xs"
  by (induction xs) (simp_all add: is_ignored_def)

lemma level_sav_not_ignored:
  "level_sav_of sid \<in> set (filter (\<lambda>f. \<not> is_ignored sid f) xs) \<longleftrightarrow> level_sav_of sid \<in> set xs"
  by (auto simp add: is_ignored_def)

lemma zip_try_walk:
  assumes "ZipFile env zip_data = Inr z"
    and "namelist z \<noteq> []"
    and "level_sav_of (first_segment (hd (namelist z))) \<in> set (namelist z)"
  shows "load_zip_file_try env zip_data w =
     (case read z (level_sav_of (first_segment (hd (namelist z)))) of
        Inl e \<Rightarrow> (Inl e, w)
      | Inr level_sav_data \<Rightarrow>
          (case read_players (UUID env) (read z)
                  (filter (is_player_file (first_segment (hd (namelist z)))) (namelist z)) [] of
             Inl e \<Rightarrow> (Inl e, w)
           | Inr player_data \<Rightarrow>
               (case process_save_files env (first_segment (hd (namelist z))) level_sav_data
                       player_data (app_state w) of
                  (msgs, r, st) \<Rightarrow>
                    (case r of
                       Inl e \<Rightarrow>
                         (Inl e,
                          report msgs
                            (w\<lparr>app_state := st,
                               calls := calls w @
                                 [ProcessSaveFiles (first_segment (hd (namelist z)))
                                    level_sav_data player_data]\<rparr>))
                     | Inr u \<Rightarrow>
                         send_loaded env LOAD_ZIP_FILE
                           ''Zip file uploaded and processed successfully, results coming right up!''
                           (report msgs
                              (w\<lparr>app_state := st,
                                 calls := calls w @
                                   [ProcessSaveFiles (first_segment (hd (namelist z)))
                                      level_sav_data player_data]\<rparr>))))))"
  by (simp only: load_zip_file_try_def assms sum.case Let_def is_None_def if_False
      list.case_eq_if simp_thms)

lemma cluttered_run:
  "calls (snd (load_zip_file_handler two_archives_env [1] empty_world)) =
     [ProcessSaveFiles ''S1'' [12] [(0x11111111111111111111111111111111, [51])]]"
  by (simp add: load_zip_file_handler_def load_zip_file_try_def is_None_def Let_def
      two_archives_env_def cluttered_names_def archive_def send_loaded_def report_def
      ws_callback_def send_json_def
      stub_env_def empty_world_def first_segment_def level_sav_of_def is_player_file_def
      startswith_def endswith_def player_id_of_ones hex_uuid_ones)

text \<open>
  C9. Take two uploads whose archives have the same root (the first path segment of the
  first entry) and the same entries once those that are neither \<^verbatim>\<open><save_id>/Level.sav\<close> nor
  selected as player files are left out, with the same content for the entries that
  remain, and let the level file be present. Then the handler does the same on both: the
  same envelopes, the same call of \<^verbatim>\<open>process_save_files\<close> with the same keyed blobs, the
  same state. The entries left out are never read and their names never parsed. (Without
  the level file both uploads are rejected, with an error text that lists every entry.)
\<close>

theorem ignored_entries_change_nothing:
  assumes z: "ZipFile env zip_data = Inr z"
    and z': "ZipFile env zip_data' = Inr z'"
    and ne: "namelist z \<noteq> []"
    and ne': "namelist z' \<noteq> []"
    and sid: "save_id = first_segment (hd (namelist z))"
    and sid': "first_segment (hd (namelist z')) = save_id"
    and same: "filter (\<lambda>f. \<not> is_ignored save_id f) (namelist z') =
               filter (\<lambda>f. \<not> is_ignored save_id f) (namelist z)"
    and reads: "\<forall>f \<in> set (namelist z). \<not> is_ignored save_id f \<longrightarrow> read z' f = read z f"
    and level: "level_sav_of save_id \<in> set (namelist z)"
  shows "load_zip_file_handler env zip_data' w = load_zip_file_handler env zip_data w"
proof -
  from level same have level': "level_sav_of save_id \<in> set (namelist z')"
    using level_sav_not_ignored [of save_id "namelist z'"]
      level_sav_not_ignored [of save_id "namelist z"] by simp
  have files: "filter (is_player_file save_id) (namelist z') =
               filter (is_player_file save_id) (namelist z)"
    using filter_player_not_ignored [of save_id "namelist z'"]
      filter_player_not_ignored [of save_id "namelist z"] same by simp
  have rd_level: "read z' (level_sav_of save_id) = read z (level_sav_of save_id)"
    using reads level by (simp add: is_ignored_def)
  have rd_players:
    "read_players (UUID env) (read z') (filter (is_player_file save_id) (namelist z)) [] =
     read_players (UUID env) (read z) (filter (is_player_file save_id) (namelist z)) []"
    by (rule read_players_cong) (use reads in \<open>simp add: is_ignored_def\<close>)
  have "load_zip_file_try env zip_data' w = load_zip_file_try env zip_data w"
    using zip_try_walk [OF z ne, of w] zip_try_walk [OF z' ne', of w] level level'
    by (simp add: sid [symmetric] sid' files rd_level rd_players
        cong: sum.case_cong prod.case_cong)
  then show ?thesis
    by (simp add: load_zip_file_handler_def)
qed

theorem ignored_entries_change_nothing_witness:
  "ZipFile two_archives_env [] = Inr (archive plain_names)
   \<and> ZipFile two_archives_env [1] = Inr (archive cluttered_names)
   \<and> namelist (archive plain_names) \<noteq> []
   \<and> namelist (archive cluttered_names) \<noteq> []
   \<and> ''S1'' = first_segment (hd (namelist (archive plain_names)))
   \<and> first_segment (hd (namelist (archive cluttered_names))) = ''S1''
   \<and> filter (\<lambda>f. \<not> is_ignored ''S1'' f) (namelist (archive cluttered_names)) =
       filter (\<lambda>f. \<not> is_ignored ''S1'' f) (namelist (archive plain_names))
   \<and> is_ignored ''S1'' ''S1/notes.txt''
   \<and> is_ignored ''S1'' ''S1/Players/readme.md''
   \<and> is_ignored ''S1'' ''S2/Players/bogus.sav''
   \<and> level_sav_of ''S1'' \<in> set (namelist (archive plain_names))
   \<and> load_zip_file_handler two_archives_env [1] empty_world =
       load_zip_file_handler two_archives_env [] empty_world
   \<and> calls (snd (load_zip_file_handler two_archives_env [1] empty_world)) =
       [ProcessSaveFiles ''S1'' [12] [(0x11111111111111111111111111111111, [51])]]"
proof -
  have h1: "ZipFile two_archives_env [] = Inr (archive plain_names)"
    by (simp add: two_archives_env_def)
  have h2: "ZipFile two_archives_env [1] = Inr (archive cluttered_names)"
    by (simp add: two_archives_env_def)
  have h3: "namelist (archive plain_names) \<noteq> []"
    by (simp add: archive_def plain_names_def)
  have h4: "namelist (archive cluttered_names) \<noteq> []"
    by (simp add: archive_def cluttered_names_def)
  have h5: "''S1'' = first_segment (hd (namelist (archive plain_names)))"
    by (simp add: archive_def plain_names_def first_segment_def)
  have h6: "first_segment (hd (namelist (archive cluttered_names))) = ''S1''"
    by (simp add: archive_def cluttered_names_def first_segment_def)
  have i1: "is_ignored ''S1'' ''S1/notes.txt''"
    by (simp add: is_ignored_def level_sav_of_def is_player_file_def startswith_def endswith_def)
  have i2: "is_ignored ''S1'' ''S1/Players/readme.md''"
    by (simp add: is_ignored_def level_sav_of_def is_player_file_def startswith_def endswith_def)
  have i3: "is_ignored ''S1'' ''S2/Players/bogus.sav''"
    by (simp add: is_ignored_def level_sav_of_def is_player_file_def startswith_def endswith_def)
  have k1: "\<not> is_ignored ''S1'' ''S1/Level.sav''"
    by (simp add: is_ignored_def level_sav_of_def)
  have k2: "\<not> is_ignored ''S1'' ''S1/Players/11111111-1111-1111-1111-111111111111.sav''"
    by (simp add: is_ignored_def level_sav_of_def is_player_file_def startswith_def endswith_def)
  have h7: "filter (\<lambda>f. \<not> is_ignored ''S1'' f) (namelist (archive cluttered_names)) =
       filter (\<lambda>f. \<not> is_ignored ''S1'' f) (namelist (archive plain_names))"
    by (simp add: archive_def cluttered_names_def plain_names_def i1 i2 i3 k1 k2)
  have h8: "\<forall>f \<in> set (namelist (archive plain_names)). \<not> is_ignored ''S1'' f \<longrightarrow>
              read (archive cluttered_names) f = read (archive plain_names) f"
    by (simp add: archive_def cluttered_names_def plain_names_def)
  have h9: "level_sav_of ''S1'' \<in> set (namelist (archive plain_names))"
    by (simp add: archive_def plain_names_def level_sav_of_def)
  from ignored_entries_change_nothing [OF h1 h2 h3 h4 h5 h6 h7 h8 h9, of empty_world]
    h1 h2 h3 h4 h5 h6 h7 i1 i2 i3 h9 cluttered_run
  show ?thesis by blast
qed

subsection \<open>Player files with the same UUID\<close>

lemma map_of_dict_setitem: "map_of (dict_setitem d k v) = (map_of d)(k \<mapsto> v)"
  by (induction d) (auto simp add: fun_eq_iff)

lemma keys_dict_setitem: "fst ` set (dict_setitem d k v) = insert k (fst ` set d)"
proof (induction d)
  case Nil
  show ?case by simp
next
  case (Cons p d)
  obtain k' v' where p: "p = (k', v')" by (cases p)
  show ?case
  proof (cases "k' = k")
    case True
    then show ?thesis by (simp add: p)
  next
    case False
    then show ?thesis by (simp add: p Cons.IH insert_commute)
  qed
qed

lemma distinct_dict_setitem:
  "distinct (map fst d) \<Longrightarrow> distinct (map fst (dict_setitem d k v))"
proof (induction d)
  case Nil
  show ?case by simp
next
  case (Cons p d)
  obtain k' v' where p: "p = (k', v')" by (cases p)
  from Cons.prems have fresh: "k' \<notin> fst ` set d" and d: "distinct (map fst d)"
    by (simp_all add: p)
  show ?case
  proof (cases "k' = k")
    case True
    with Cons.prems show ?thesis by (simp add: p)
  next
    case False
    with fresh have "k' \<notin> fst ` set (dict_setitem d k v)"
      by (simp add: keys_dict_setitem)
    with False Cons.IH [OF d] show ?thesis by (simp add: p)
  qed
qed

lemma read_players_append:
  "read_players uuid rd (xs @ ys) pd =
     (case read_players uuid rd xs pd of
        Inl e \<Rightarrow> Inl e
      | Inr pd1 \<Rightarrow> read_players uuid rd ys pd1)"
  by (induction xs arbitrary: pd) (simp_all split: sum.splits)

lemma read_players_other_keys:
  "read_players uuid rd gs pd = Inr pd' \<Longrightarrow>
   \<forall>g \<in> set gs. uuid (player_id_of g) \<noteq> Inr u \<Longrightarrow>
   map_of pd' u = map_of pd u"
proof (induction gs arbitrary: pd)
  case Nil
  then show ?case by simp
next
  case (Cons g gs)
  from Cons.prems(1) obtain k bs where k: "uuid (player_id_of g) = Inr k" and bs: "rd g = Inr bs"
    and rest: "read_players uuid rd gs (dict_setitem pd k bs) = Inr pd'"
    by (auto split: sum.splits)
  from Cons.prems(2) k have "k \<noteq> u" by auto
  from Cons.prems(2) have "\<forall>g \<in> set gs. uuid (player_id_of g) \<noteq> Inr u" by simp
  from Cons.IH [OF rest this] have "map_of pd' u = map_of (dict_setitem pd k bs) u" .
  with \<open>k \<noteq> u\<close> show ?case by (simp add: map_of_dict_setitem)
qed

lemma read_players_keys:
  "read_players uuid rd fs pd = Inr pd' \<Longrightarrow> distinct (map fst pd) \<Longrightarrow>
   distinct (map fst pd') \<and>
   set (map fst pd') = set (map fst pd) \<union> {u. \<exists>f \<in> set fs. uuid (player_id_of f) = Inr u}"
proof (induction fs arbitrary: pd)
  case Nil
  then show ?case by simp
next
  case (Cons g gs)
  from Cons.prems(1) obtain k bs where k: "uuid (player_id_of g) = Inr k" and bs: "rd g = Inr bs"
    and rest: "read_players uuid rd gs (dict_setitem pd k bs) = Inr pd'"
    by (auto split: sum.splits)
  from Cons.prems(2) have "distinct (map fst (dict_setitem pd k bs))"
    by (rule distinct_dict_setitem)
  from Cons.IH [OF rest this]
  have d': "distinct (map fst pd')"
    and keys: "fst ` set pd' =
      insert k (fst ` set pd) \<union> {u. \<exists>f \<in> set gs. uuid (player_id_of f) = Inr u}"
    by (simp_all add: keys_dict_setitem)
  have "{u. \<exists>f \<in> set (g # gs). uuid (player_id_of f) = Inr u} =
        insert k {u. \<exists>f \<in> set gs. uuid (player_id_of f) = Inr u}"
    using k by auto
  with d' keys show ?case by simp
qed

lemma read_players_last_wins:
  assumes run: "read_players uuid rd fs [] = Inr pd"
    and j: "j < length fs"
    and key: "uuid (player_id_of (fs ! j)) = Inr u"
    and bytes: "rd (fs ! j) = Inr b"
    and last: "\<forall>k. j < k \<and> k < length fs \<longrightarrow> uuid (player_id_of (fs ! k)) \<noteq> Inr u"
  shows "map_of pd u = Some b"
proof -
  from j have split: "fs = take j fs @ [fs ! j] @ drop (Suc j) fs"
    by (simp add: id_take_nth_drop)
  from run obtain pd1 where
    one: "read_players uuid rd (take j fs) [] = Inr pd1" and
    two: "read_players uuid rd ([fs ! j] @ drop (Suc j) fs) pd1 = Inr pd"
    using read_players_append [of uuid rd "take j fs" "[fs ! j] @ drop (Suc j) fs" "[]"] split
    by (auto split: sum.splits)
  from two key bytes
  have three: "read_players uuid rd (drop (Suc j) fs) (dict_setitem pd1 u b) = Inr pd"
    by simp
  have "\<forall>g \<in> set (drop (Suc j) fs). uuid (player_id_of g) \<noteq> Inr u"
  proof
    fix g assume "g \<in> set (drop (Suc j) fs)"
    then obtain i where "i < length (drop (Suc j) fs)" and "g = drop (Suc j) fs ! i"
      by (auto simp add: in_set_conv_nth)
    then have "g = fs ! (Suc j + i)" and "Suc j + i < length fs" by auto
    with last show "uuid (player_id_of g) \<noteq> Inr u" by auto
  qed
  from read_players_other_keys [OF three this]
  show ?thesis by (simp add: map_of_dict_setitem)
qed

lemma read_players_all_parse:
  "read_players uuid rd fs pd = Inr pd' \<Longrightarrow> f \<in> set fs \<Longrightarrow>
   \<exists>u. uuid (player_id_of f) = Inr u"
  by (induction fs arbitrary: pd) (auto split: sum.splits)

lemma read_players_collapse:
  assumes run: "read_players uuid rd fs [] = Inr pd"
    and ij: "i < j" and j: "j < length fs"
    and same: "uuid (player_id_of (fs ! i)) = uuid (player_id_of (fs ! j))"
  shows "length pd < length fs"
proof -
  let ?key = "\<lambda>k. projr (uuid (player_id_of (fs ! k)))"
  from read_players_keys [OF run] have d: "distinct (map fst pd)"
    and keys: "set (map fst pd) = {u. \<exists>f \<in> set fs. uuid (player_id_of f) = Inr u}"
    by simp_all
  have "set (map fst pd) \<subseteq> ?key ` ({..<length fs} - {i})"
  proof
    fix u assume "u \<in> set (map fst pd)"
    with keys obtain f where "f \<in> set fs" and u: "uuid (player_id_of f) = Inr u" by auto
    then obtain k where k: "k < length fs" and f: "f = fs ! k"
      by (auto simp add: in_set_conv_nth)
    show "u \<in> ?key ` ({..<length fs} - {i})"
    proof (cases "k = i")
      case True
      with u f same have "?key j = u" by simp
      moreover from ij j have "j \<in> {..<length fs} - {i}" by simp
      ultimately show ?thesis by blast
    next
      case False
      from u f have "?key k = u" by simp
      moreover from False k have "k \<in> {..<length fs} - {i}" by simp
      ultimately show ?thesis by blast
    qed
  qed
  then have "card (set (map fst pd)) \<le> card (?key ` ({..<length fs} - {i}))"
    by (intro card_mono) simp_all
  also have "\<dots> \<le> card ({..<length fs} - {i})"
    by (rule card_image_le) simp
  also from ij j have "\<dots> < length fs" by simp
  finally have "card (set (map fst pd)) < length fs" .
  moreover from d have "card (set (map fst pd)) = length pd"
    using distinct_card [of "map fst pd"] by simp
  ultimately show ?thesis by simp
qed

lemma calls_send_loaded: "calls (snd (send_loaded env t txt w)) = calls w"
  by (simp add: send_loaded_def ws_callback_def send_json_def Let_def
      split: option.splits sum.splits)

lemma calls_zip_handler:
  "calls (snd (load_zip_file_handler env zip_data w)) =
   calls (snd (load_zip_file_try env zip_data w))"
  by (simp add: load_zip_file_handler_def send_json_def split: prod.splits sum.splits)

lemma player_id_of_upper:
  "player_id_of ''S1/Players/AAAAAAAA-1111-1111-1111-111111111111.sav'' = ''AAAAAAAA-1111-1111-1111-111111111111''"
  by (simp add: player_id_of_def basename_def splitext_def rfind_def Let_def)

lemma player_id_of_lower:
  "player_id_of ''S1/Players/aaaaaaaa-1111-1111-1111-111111111111.sav'' = ''aaaaaaaa-1111-1111-1111-111111111111''"
  by (simp add: player_id_of_def basename_def splitext_def rfind_def Let_def)

lemma hex_uuid_upper:
  "hex_uuid ''AAAAAAAA-1111-1111-1111-111111111111'' = Inr 0xAAAAAAAA111111111111111111111111"
  by (simp add: hex_uuid_def hex_digit_def Let_def)

lemma hex_uuid_lower:
  "hex_uuid ''aaaaaaaa-1111-1111-1111-111111111111'' = Inr 0xAAAAAAAA111111111111111111111111"
  by (simp add: hex_uuid_def hex_digit_def Let_def)

lemma case_variant_files:
  "filter (is_player_file ''S1'') (namelist (archive_with case_variant_entries)) = [''S1/Players/AAAAAAAA-1111-1111-1111-111111111111.sav'',
        ''S1/Players/aaaaaaaa-1111-1111-1111-111111111111.sav'']"
  by (simp add: archive_with_def case_variant_entries_def is_player_file_def
      startswith_def endswith_def)

text \<open>
  C10. The keys of \<^verbatim>\<open>player_data\<close> are the values \<^verbatim>\<open>uuid.UUID\<close> returns, not the file
  names. When the walk completes and two player files, listed at positions \<open>i < j\<close>, parse
  to the same UUID \<open>u\<close>, \<open>j\<close> being the last position with that UUID, the dictionary passed
  to \<^verbatim>\<open>process_save_files\<close> has distinct keys, maps \<open>u\<close> to the content of the file at \<open>j\<close>,
  and has fewer items than there are player files. The witness is a bundle whose two
  player files differ only in the case of the hexadecimal digits.
\<close>

theorem same_uuid_entries_collapse:
  assumes z: "ZipFile env zip_data = Inr z"
    and ne: "namelist z \<noteq> []"
    and sid: "save_id = first_segment (hd (namelist z))"
    and level: "level_sav_of save_id \<in> set (namelist z)"
    and lv: "read z (level_sav_of save_id) = Inr level_sav_data"
    and pfs: "player_files = filter (is_player_file save_id) (namelist z)"
    and run: "read_players (UUID env) (read z) player_files [] = Inr player_data"
    and ij: "i < j"
    and j: "j < length player_files"
    and ki: "UUID env (player_id_of (player_files ! i)) = Inr u"
    and kj: "UUID env (player_id_of (player_files ! j)) = Inr u"
    and bj: "read z (player_files ! j) = Inr b"
    and last: "\<forall>k. j < k \<and> k < length player_files \<longrightarrow>
                 UUID env (player_id_of (player_files ! k)) \<noteq> Inr u"
  shows "calls (snd (load_zip_file_handler env zip_data w)) =
           calls w @ [ProcessSaveFiles save_id level_sav_data player_data]
       \<and> map_of player_data u = Some b
       \<and> distinct (map fst player_data)
       \<and> length player_data < length player_files"
proof -
  obtain msgs r st where
    ps: "process_save_files env save_id level_sav_data player_data (app_state w) = (msgs, r, st)"
    by (cases "process_save_files env save_id level_sav_data player_data (app_state w)")
  from level have level': "level_sav_of (first_segment (hd (namelist z))) \<in> set (namelist z)"
    by (simp add: sid)
  have "calls (snd (load_zip_file_try env zip_data w)) =
          calls w @ [ProcessSaveFiles save_id level_sav_data player_data]"
    using lv run ps
    by (cases r)
       (simp_all add: zip_try_walk [OF z ne level'] sid [symmetric] pfs [symmetric]
          calls_send_loaded calls_report)
  then have c: "calls (snd (load_zip_file_handler env zip_data w)) =
          calls w @ [ProcessSaveFiles save_id level_sav_data player_data]"
    by (simp add: calls_zip_handler)
  from read_players_last_wins [OF run j kj bj last]
  have m: "map_of player_data u = Some b" .
  from read_players_keys [OF run] have d: "distinct (map fst player_data)" by simp
  from ki kj have "UUID env (player_id_of (player_files ! i)) =
                   UUID env (player_id_of (player_files ! j))" by simp
  from read_players_collapse [OF run ij j this]
  have l: "length player_data < length player_files" .
  from c m d l show ?thesis by blast
qed

theorem same_uuid_entries_collapse_witness:
  "ZipFile case_variant_env [] = Inr (archive_with case_variant_entries)
   \<and> namelist (archive_with case_variant_entries) \<noteq> []
   \<and> ''S1'' = first_segment (hd (namelist (archive_with case_variant_entries)))
   \<and> level_sav_of ''S1'' \<in> set (namelist (archive_with case_variant_entries))
   \<and> read (archive_with case_variant_entries) (level_sav_of ''S1'') = Inr [9]
   \<and> [''S1/Players/AAAAAAAA-1111-1111-1111-111111111111.sav'',
         ''S1/Players/aaaaaaaa-1111-1111-1111-111111111111.sav''] = filter (is_player_file ''S1'') (namelist (archive_with case_variant_entries))
   \<and> read_players (UUID case_variant_env) (read (archive_with case_variant_entries))
        [''S1/Players/AAAAAAAA-1111-1111-1111-111111111111.sav'',
              ''S1/Players/aaaaaaaa-1111-1111-1111-111111111111.sav''] [] = Inr [(0xAAAAAAAA111111111111111111111111, [2])]
   \<and> (0::nat) < 1
   \<and> 1 < length [''S1/Players/AAAAAAAA-1111-1111-1111-111111111111.sav'', ''S1/Players/aaaaaaaa-1111-1111-1111-111111111111.sav'']
   \<and> UUID case_variant_env (player_id_of ([''S1/Players/AAAAAAAA-1111-1111-1111-111111111111.sav'',
         ''S1/Players/aaaaaaaa-1111-1111-1111-111111111111.sav''] ! 0)) = Inr 0xAAAAAAAA111111111111111111111111
   \<and> UUID case_variant_env (player_id_of ([''S1/Players/AAAAAAAA-1111-1111-1111-111111111111.sav'',
         ''S1/Players/aaaaaaaa-1111-1111-1111-111111111111.sav''] ! 1)) = Inr 0xAAAAAAAA111111111111111111111111
   \<and> read (archive_with case_variant_entries) ([''S1/Players/AAAAAAAA-1111-1111-1111-111111111111.sav'',
         ''S1/Players/aaaaaaaa-1111-1111-1111-111111111111.sav''] ! 1) = Inr [2]
   \<and> calls (snd (load_zip_file_handler case_variant_env [] empty_world)) =
       calls empty_world @ [ProcessSaveFiles ''S1'' [9] [(0xAAAAAAAA111111111111111111111111, [2])]]
   \<and> map_of [(0xAAAAAAAA111111111111111111111111::nat, [2::8 word])] 0xAAAAAAAA111111111111111111111111 = Some [2]
   \<and> distinct (map fst [(0xAAAAAAAA111111111111111111111111::nat, [2::8 word])])
   \<and> length [(0xAAAAAAAA111111111111111111111111::nat, [2::8 word])] < length [''S1/Players/AAAAAAAA-1111-1111-1111-111111111111.sav'',
         ''S1/Players/aaaaaaaa-1111-1111-1111-111111111111.sav'']"
proof -
  have u: "UUID case_variant_env = hex_uuid"
    by (simp add: case_variant_env_def stub_env_def)
  have h1: "ZipFile case_variant_env [] = Inr (archive_with case_variant_entries)"
    by (simp add: case_variant_env_def)
  have h2: "namelist (archive_with case_variant_entries) \<noteq> []"
    by (simp add: archive_with_def case_variant_entries_def)
  have h3: "''S1'' = first_segment (hd (namelist (archive_with case_variant_entries)))"
    by (simp add: archive_with_def case_variant_entries_def first_segment_def)
  have h4: "level_sav_of ''S1'' \<in> set (namelist (archive_with case_variant_entries))"
    by (simp add: archive_with_def case_variant_entries_def level_sav_of_def)
  have h5: "read (archive_with case_variant_entries) (level_sav_of ''S1'') = Inr [9]"
    by (simp add: archive_with_def case_variant_entries_def level_sav_of_def)
  have h6: "[''S1/Players/AAAAAAAA-1111-1111-1111-111111111111.sav'', ''S1/Players/aaaaaaaa-1111-1111-1111-111111111111.sav''] =
      filter (is_player_file ''S1'') (namelist (archive_with case_variant_entries))"
    by (simp add: case_variant_files)
  have r1: "read (archive_with case_variant_entries) ''S1/Players/AAAAAAAA-1111-1111-1111-111111111111.sav'' = Inr [1]"
    by (simp add: archive_with_def case_variant_entries_def)
  have r2: "read (archive_with case_variant_entries) ''S1/Players/aaaaaaaa-1111-1111-1111-111111111111.sav'' = Inr [2]"
    by (simp add: archive_with_def case_variant_entries_def)
  have h7: "read_players (UUID case_variant_env) (read (archive_with case_variant_entries))
        [''S1/Players/AAAAAAAA-1111-1111-1111-111111111111.sav'',
              ''S1/Players/aaaaaaaa-1111-1111-1111-111111111111.sav''] [] = Inr [(0xAAAAAAAA111111111111111111111111, [2])]"
    by (simp add: u r1 r2 player_id_of_upper player_id_of_lower hex_uuid_upper hex_uuid_lower)
  have h8: "(0::nat) < 1" by simp
  have h9: "1 < length [''S1/Players/AAAAAAAA-1111-1111-1111-111111111111.sav'', ''S1/Players/aaaaaaaa-1111-1111-1111-111111111111.sav'']" by simp
  have h10: "UUID case_variant_env (player_id_of ([''S1/Players/AAAAAAAA-1111-1111-1111-111111111111.sav'',
        ''S1/Players/aaaaaaaa-1111-1111-1111-111111111111.sav''] ! 0)) = Inr 0xAAAAAAAA111111111111111111111111"
    by (simp add: u player_id_of_upper hex_uuid_upper)
  have h11: "UUID case_variant_env (player_id_of ([''S1/Players/AAAAAAAA-1111-1111-1111-111111111111.sav'',
        ''S1/Players/aaaaaaaa-1111-1111-1111-111111111111.sav''] ! 1)) = Inr 0xAAAAAAAA111111111111111111111111"
    by (simp add: u player_id_of_lower hex_uuid_lower)
  have h12: "read (archive_with case_variant_entries) ([''S1/Players/AAAAAAAA-1111-1111-1111-111111111111.sav'',
        ''S1/Players/aaaaaaaa-1111-1111-1111-111111111111.sav''] ! 1) = Inr [2]"
    by (simp add: r2)
  have h13: "\<forall>k. 1 < k \<and> k < length [''S1/Players/AAAAAAAA-1111-1111-1111-111111111111.sav'',
        ''S1/Players/aaaaaaaa-1111-1111-1111-111111111111.sav''] \<longrightarrow>
      UUID case_variant_env (player_id_of ([''S1/Players/AAAAAAAA-1111-1111-1111-111111111111.sav'',
            ''S1/Players/aaaaaaaa-1111-1111-1111-111111111111.sav''] ! k)) \<noteq> Inr 0xAAAAAAAA111111111111111111111111"
    by (simp del: nth_Cons_Suc nth_Cons_0) arith
  note r = same_uuid_entries_collapse
    [OF h1 h2 h3 h4 h5 h6 h7 h8 h9 h10 h11 h12 h13, of empty_world]
  note c1 = r [THEN conjunct1]
  note c2 = r [THEN conjunct2, THEN conjunct1]
  note c3 = r [THEN conjunct2, THEN conjunct2, THEN conjunct1]
  note c4 = r [THEN conjunct2, THEN conjunct2, THEN conjunct2]
  show ?thesis
    by (intro conjI; fact h1 h2 h3 h4 h5 h6 h7 h8 h9 h10 h11 h12 c1 c2 c3 c4)
qed

end
